theory Spec2Isabelle
  imports Main
begin

section \<open>Strings\<close>

text \<open>
  Python strings are modelled as \<^typ>\<open>string\<close>, a character being a code point below
  256. The keyword tables and the column names of the script are ASCII. \<open>str.isspace\<close> is
  modelled on all these code points. \<open>str.upper\<close> is modelled on ASCII characters only: the
  upper case of the other characters needs Unicode's case tables and code points that the
  type does not have (the upper case of U+00FF is U+0178), and the model leaves them as
  they are. What is proved of the case mapping is therefore stated for ASCII strings.
\<close>


text \<open>
  The characters \<open>str.strip()\<close> removes, those with \<open>str.isspace\<close>: the ASCII ones, and
  U+0085 and U+00A0.
\<close>

definition isspace :: "char \<Rightarrow> bool" where
  "isspace c = (c \<in> set [CHR 0x09, CHR 0x0A, CHR 0x0B, CHR 0x0C, CHR 0x0D,
                          CHR 0x1C, CHR 0x1D, CHR 0x1E, CHR 0x1F, CHR 0x20,
                          CHR 0x85, CHR 0xA0])"

text \<open>\<open>s.strip()\<close>: leading and trailing whitespace removed.\<close>

definition strip :: "string \<Rightarrow> string" where
  "strip s = rev (dropWhile isspace (rev (dropWhile isspace s)))"

text \<open>\<open>s.replace(old, new)\<close> for one-character \<open>old\<close> and \<open>new\<close>, as every call of the script has.\<close>

definition replace :: "char \<Rightarrow> char \<Rightarrow> string \<Rightarrow> string" where
  "replace old new s = map (\<lambda>c. if c = old then new else c) s"

definition upper_table :: "(char \<times> char) list" where
  "upper_table = zip ''abcdefghijklmnopqrstuvwxyz'' ''ABCDEFGHIJKLMNOPQRSTUVWXYZ''"

definition upper_char :: "char \<Rightarrow> char" where
  "upper_char c = (case map_of upper_table c of Some u \<Rightarrow> u | None \<Rightarrow> c)"

text \<open>\<open>s.upper()\<close>, for an ASCII string \<open>s\<close>.\<close>

definition upper :: "string \<Rightarrow> string" where
  "upper s = map upper_char s"

text \<open>\<open>s.startswith(p)\<close>.\<close>

fun startswith :: "string \<Rightarrow> string \<Rightarrow> bool" where
  "startswith s [] = True"
| "startswith [] (p # ps) = False"
| "startswith (c # cs) (p # ps) = (c = p \<and> startswith cs ps)"

text \<open>\<open>kw in s\<close> on strings: \<open>kw\<close> occurs in \<open>s\<close> as a contiguous substring.\<close>

fun contains :: "string \<Rightarrow> string \<Rightarrow> bool" where
  "contains kw [] = (kw = [])"
| "contains kw (c # cs) = (startswith (c # cs) kw \<or> contains kw cs)"

section \<open>Cells\<close>

text \<open>
  A cell of the table is its text, or missing (pandas' NaN, for which \<open>pd.isna\<close> holds).
  \<open>str\<close> of a missing cell is \<open>nan\<close>.
\<close>

type_synonym cell = "string option"

definition py_str :: "cell \<Rightarrow> string" where
  "py_str v = (case v of None \<Rightarrow> ''nan'' | Some s \<Rightarrow> s)"

text \<open>\<open>v and not pd.isna(v)\<close>: present and not the empty string.\<close>

definition present :: "cell \<Rightarrow> bool" where
  "present v = (case v of None \<Rightarrow> False | Some s \<Rightarrow> s \<noteq> [])"

section \<open>The helper functions of the script\<close>

text \<open>
  \<open>normalize_key\<close>: \<open>None\<close> for an empty or missing name (the test comes before the
  strip), else the name stripped, with \<open>-\<close>, space and \<open>/\<close> replaced by \<open>_\<close>, in upper case.
\<close>

definition normalize_key :: "cell \<Rightarrow> string option" where
  "normalize_key name =
     (if \<not> present name then None
      else Some (upper (replace (CHR ''/'') (CHR ''_'')
                  (replace (CHR '' '') (CHR ''_'')
                    (replace (CHR ''-'') (CHR ''_'') (strip (py_str name)))))))"

text \<open>\<open>any(kw in s for kw in kws)\<close>.\<close>

definition any_in :: "string list \<Rightarrow> string \<Rightarrow> bool" where
  "any_in kws s = list_ex (\<lambda>kw. contains kw s) kws"

definition fabric_keywords :: "string list" where
  "fabric_keywords = [''YARN'', ''WEAVE'', ''COMPOSITION'', ''FINISH'', ''CONSTRUCTION'',
     ''GRAM'', ''COUNT'', ''LYCRA'', ''FABRIC'']"

definition design_keywords :: "string list" where
  "design_keywords = [''NECK'', ''COLLAR'', ''SLEEVES'', ''CUFF'', ''FIT'', ''PATTERN'',
     ''STYLE'', ''SHAPE'', ''LENGTH'', ''PRINT'', ''EMBROIDERY'', ''WASH'', ''POCKET'',
     ''WAIST'', ''RISE'', ''LEG'', ''PLACKET'']"

definition technical_keywords :: "string list" where
  "technical_keywords = [''GSM'', ''OUNCE'', ''COUNT'', ''SHADE'', ''SIZE'']"

definition categorize_attribute :: "string \<Rightarrow> string" where
  "categorize_attribute attr_name =
     (let attr_upper = upper attr_name in
      if any_in fabric_keywords attr_upper then ''fabric''
      else if any_in design_keywords attr_upper then ''design''
      else if any_in technical_keywords attr_upper then ''technical''
      else ''other'')"

definition non_extractable :: "string list" where
  "non_extractable = [''YARN_01'', ''YARN_02'', ''WEAVE'', ''WEAVE_2'', ''COMPOSITION'',
     ''FINISH'', ''CONSTRUCTION'', ''GRAM_PER_SQUARE_METER'', ''OUNCE'',
     ''COUNT'', ''SHADE'', ''FABRIC_MAIN_MVGR'']"

definition is_ai_extractable :: "string \<Rightarrow> bool" where
  "is_ai_extractable key = (key \<notin> set non_extractable)"

definition visible_keywords :: "string list" where
  "visible_keywords = [''NECK'', ''COLLAR'', ''SLEEVES'', ''FIT'', ''PATTERN'', ''COLOR'',
     ''STYLE'', ''SHAPE'', ''LENGTH'', ''PRINT'', ''EMBROIDERY'', ''WASH'',
     ''PLACKET'', ''POCKET'', ''WAIST'', ''RISE'', ''LEG'', ''CLOSURE'']"

definition is_visible :: "string \<Rightarrow> bool" where
  "is_visible key = any_in visible_keywords key"

text \<open>
  The dictionary \<open>priorities\<close> of \<open>get_priority\<close>, in its insertion order, which is the
  order \<open>priorities.items()\<close> iterates in.
\<close>

definition priorities :: "(string \<times> int) list" where
  "priorities =
     [(''NECK'', 95), (''COLLAR'', 90), (''SLEEVES'', 90), (''FIT'', 85), (''PATTERN'', 85),
      (''COLOR'', 90), (''STYLE'', 80), (''LENGTH'', 75), (''PRINT'', 70),
      (''EMBROIDERY'', 65), (''PLACKET'', 70), (''POCKET'', 65), (''WAIST'', 75),
      (''CLOSURE'', 70)]"

text \<open>The loop of \<open>get_priority\<close>: return at the first keyword in the key, 50 after the loop.\<close>

fun first_priority :: "(string \<times> int) list \<Rightarrow> string \<Rightarrow> int" where
  "first_priority [] key = 50"
| "first_priority ((keyword, priority) # items) key =
     (if contains keyword key then priority else first_priority items key)"

definition get_priority :: "string \<Rightarrow> int" where
  "get_priority key = first_priority priorities key"

text \<open>
  The table of the specification, in the order the specification declares it, and the
  scan the specification describes over it.
\<close>

definition spec_priorities :: "(string \<times> int) list" where
  "spec_priorities =
     [(''NECK'', 95), (''COLOR'', 90), (''COLLAR'', 90), (''SLEEVES'', 90), (''FIT'', 85),
      (''PATTERN'', 85), (''STYLE'', 80), (''WAIST'', 75), (''LENGTH'', 75), (''PRINT'', 70),
      (''PLACKET'', 70), (''CLOSURE'', 70), (''EMBROIDERY'', 65), (''POCKET'', 65)]"

definition spec_get_priority :: "string \<Rightarrow> int" where
  "spec_get_priority key =
     (case find (\<lambda>(keyword, priority). contains keyword key) spec_priorities of
        Some (keyword, priority) \<Rightarrow> priority
      | None \<Rightarrow> 50)"

text \<open>
  \<open>generate_aliases\<close>. The aliases are collected in a Python set and returned as a list in
  the set's order, which the script does not fix: the model returns the set.
  \<open>filter(None, aliases)\<close> removes the empty string.
\<close>

definition variants :: "cell \<Rightarrow> string set" where
  "variants v = {strip (py_str v), replace (CHR ''_'') (CHR '' '') (py_str v),
                 replace (CHR ''-'') (CHR '' '') (py_str v)}"

definition generate_aliases :: "cell \<Rightarrow> cell \<Rightarrow> string set" where
  "generate_aliases short_form full_form =
     ((if present short_form then variants short_form else {}) \<union>
      (if present full_form \<and> py_str full_form \<noteq> py_str short_form
       then variants full_form else {})) - {[]}"

section \<open>The combined table\<close>

text \<open>
  \<open>combined_df\<close>, the concatenation of the sheets read: its column names in order, and its
  rows in order, a row giving the cell of each column. The model starts at this table;
  reading the file is pandas' part.
\<close>

type_synonym row = "string \<Rightarrow> cell"

record table =
  columns :: "string list"
  rows :: "row list"

text \<open>\<open>pd.notna\<close>.\<close>

definition notna :: "cell \<Rightarrow> bool" where
  "notna v = (v \<noteq> None)"

text \<open>
  \<open>drop_duplicates()\<close> and \<open>unique()\<close>: the first occurrence of each value is kept, in
  order (\<^const>\<open>remdups\<close> keeps the last one, hence the reversals). Two missing cells
  count as equal.
\<close>

definition drop_duplicates :: "'a list \<Rightarrow> 'a list" where
  "drop_duplicates xs = rev (remdups (rev xs))"

definition HIERARCHY_COLS :: "string list" where
  "HIERARCHY_COLS =
     [''GMT FAB DIV'',
      ''FINISHED GOOD SEGMENT'',
      ''FINISHED GOOD SEGMENT FULL NAME'',
      ''FINISHED GOODS DIVISION'',
      ''FINISHED GOODS DIVISION FULL NAME'',
      ''SUB-DIVISION'',
      ''SUB-DIVISION FULL NAME'',
      ''MAJOR CATEGORY'',
      ''MAJOR CATEGORY FULL FORM'',
      ''MERCHENDISE CATEGORY CODE'',
      ''MERCHENDISE CATEGORY DESCRIPTION'',
      ''MERCHENDISE CATEGORY DESCRIPTION FULL FORM'',
      ''SEASON'',
      ''SEASON FULL NAME'',
      ''FATHER DESIGN'',
      ''FATHER DESIGN FULL NAME'',
      ''CHILD DESIGN MICRO MVGR'',
      ''CHILD DESIGN FULL NAME'',
      ''FABRIC DIVISION'',
      ''FABRIC DIVISION FULL NAME'',
      ''FABRIC_SHEET'']"

section \<open>The output records\<close>

record department =
  dept_code :: string
  dept_name :: string
  dept_full_name :: string

record sub_division =
  sd_department_code :: string
  sd_code :: string
  sd_name :: string
  sd_full_name :: string

record major_category =
  mc_sub_division_code :: string
  mc_code :: string
  mc_name :: string
  mc_full_form :: "string option"
  mc_merchandise_code :: "string option"
  mc_merchandise_desc :: "string option"
  mc_fabric_sheet :: string

record attribute_value =
  av_short_form :: string
  av_full_form :: string
  av_aliases :: "string set"

record attribute =
  attr_key :: string
  attr_label :: string
  attr_full_form :: string
  attr_category :: string
  attr_ai_extractable :: bool
  attr_visible_from_distance :: bool
  attr_extraction_priority :: int
  attr_allowed_values :: "attribute_value list"

record category_mapping =
  cm_major_category :: string
  cm_attribute :: string

record parse_result =
  departments :: "department list"
  sub_divisions :: "sub_division list"
  major_categories :: "major_category list"
  attributes :: "attribute list"
  category_mappings :: "category_mapping list"

section \<open>Departments and sub-divisions\<close>

definition dept_df :: "table \<Rightarrow> (cell \<times> cell) list" where
  "dept_df combined_df =
     filter (\<lambda>(c, f). notna c \<and> notna f)
       (drop_duplicates
          (map (\<lambda>r. (r ''FINISHED GOODS DIVISION'', r ''FINISHED GOODS DIVISION FULL NAME''))
             (rows combined_df)))"

definition extract_departments :: "table \<Rightarrow> department list" where
  "extract_departments combined_df =
     map (\<lambda>(c, f). \<lparr>dept_code = strip (py_str c), dept_name = strip (py_str c),
                     dept_full_name = strip (py_str f)\<rparr>)
       (dept_df combined_df)"

definition subdiv_df :: "table \<Rightarrow> (cell \<times> cell \<times> cell) list" where
  "subdiv_df combined_df =
     filter (\<lambda>(d, c, f). notna d \<and> notna c \<and> notna f)
       (drop_duplicates
          (map (\<lambda>r. (r ''FINISHED GOODS DIVISION'', r ''SUB-DIVISION'', r ''SUB-DIVISION FULL NAME''))
             (rows combined_df)))"

definition extract_sub_divisions :: "table \<Rightarrow> sub_division list" where
  "extract_sub_divisions combined_df =
     map (\<lambda>(d, c, f). \<lparr>sd_department_code = strip (py_str d), sd_code = strip (py_str c),
                        sd_name = strip (py_str c), sd_full_name = strip (py_str f)\<rparr>)
       (subdiv_df combined_df)"

section \<open>Major categories\<close>

text \<open>
  A row of \<open>cat_df\<close>: the cells of SUB-DIVISION, MAJOR CATEGORY, MAJOR CATEGORY FULL FORM,
  MERCHENDISE CATEGORY CODE, MERCHENDISE CATEGORY DESCRIPTION and FABRIC_SHEET.
\<close>

type_synonym cat_row = "cell \<times> cell \<times> cell \<times> cell \<times> cell \<times> cell"

definition cat_df :: "table \<Rightarrow> cat_row list" where
  "cat_df combined_df =
     filter (\<lambda>(sd, mc, ff, mcode, mdesc, sheet). notna mc)
       (drop_duplicates
          (map (\<lambda>r. (r ''SUB-DIVISION'', r ''MAJOR CATEGORY'', r ''MAJOR CATEGORY FULL FORM'',
                      r ''MERCHENDISE CATEGORY CODE'', r ''MERCHENDISE CATEGORY DESCRIPTION'',
                      r ''FABRIC_SHEET''))
             (rows combined_df)))"

text \<open>
  The loop over \<open>cat_df.iterrows()\<close>, with the list \<open>major_categories\<close> and the set
  \<open>seen_codes\<close> passed along.
\<close>

fun major_categories_loop ::
  "cat_row list \<Rightarrow> major_category list \<Rightarrow> string set \<Rightarrow> major_category list" where
  "major_categories_loop [] major_cats seen_codes = major_cats"
| "major_categories_loop ((sd, mc, ff, mcode, mdesc, sheet) # rest) major_cats seen_codes =
     (let subdiv_code = strip (py_str sd);
          original_code = strip (py_str mc);
          full_form = map_option strip ff;
          merch_code = map_option strip mcode;
          merch_desc = map_option strip mdesc;
          fabric_sheet = strip (py_str sheet);
          code = (if original_code \<in> seen_codes
                  then original_code @ ''_'' @ fabric_sheet else original_code)
      in major_categories_loop rest
           (major_cats @
              [\<lparr>mc_sub_division_code = subdiv_code, mc_code = code, mc_name = original_code,
                mc_full_form = full_form, mc_merchandise_code = merch_code,
                mc_merchandise_desc = merch_desc, mc_fabric_sheet = fabric_sheet\<rparr>])
           (insert code seen_codes))"

definition extract_major_categories :: "table \<Rightarrow> major_category list" where
  "extract_major_categories combined_df = major_categories_loop (cat_df combined_df) [] {}"

section \<open>Attributes\<close>

definition all_cols :: "table \<Rightarrow> string list" where
  "all_cols combined_df =
     filter (\<lambda>col. col \<notin> set HIERARCHY_COLS \<and> \<not> startswith col ''Unnamed'')
       (columns combined_df)"

definition attr_cols :: "table \<Rightarrow> string list" where
  "attr_cols combined_df =
     filter (\<lambda>col. \<not> contains ''FULL NAME'' col) (all_cols combined_df)"

text \<open>\<open>combined_df[[col, full_name_col]].drop_duplicates().dropna()\<close>.\<close>

definition value_df :: "table \<Rightarrow> string \<Rightarrow> string \<Rightarrow> (cell \<times> cell) list" where
  "value_df combined_df col full_name_col =
     filter (\<lambda>(s, f). notna s \<and> notna f)
       (drop_duplicates (map (\<lambda>r. (r col, r full_name_col)) (rows combined_df)))"

text \<open>\<open>combined_df[col].dropna().unique()\<close>.\<close>

definition unique_values :: "table \<Rightarrow> string \<Rightarrow> cell list" where
  "unique_values combined_df col =
     drop_duplicates (filter notna (map (\<lambda>r. r col) (rows combined_df)))"

text \<open>The loop over \<open>value_df.iterrows()\<close>, with \<open>allowed_values\<close> and \<open>seen_values\<close>.\<close>

fun value_df_loop ::
  "(cell \<times> cell) list \<Rightarrow> attribute_value list \<Rightarrow> string set \<Rightarrow> attribute_value list" where
  "value_df_loop [] allowed seen_values = allowed"
| "value_df_loop ((s, f) # rest) allowed seen_values =
     (let short = strip (py_str s); full = strip (py_str f) in
      if short \<in> seen_values then value_df_loop rest allowed seen_values
      else value_df_loop rest
             (allowed @
                [\<lparr>av_short_form = short, av_full_form = full,
                  av_aliases = generate_aliases (Some short) (Some full)\<rparr>])
             (insert short seen_values))"

text \<open>The loop over \<open>unique_values\<close>, when the column has no companion column.\<close>

fun unique_values_loop ::
  "cell list \<Rightarrow> attribute_value list \<Rightarrow> string set \<Rightarrow> attribute_value list" where
  "unique_values_loop [] allowed seen_values = allowed"
| "unique_values_loop (val # rest) allowed seen_values =
     (let val_str = strip (py_str val) in
      if val_str \<in> seen_values then unique_values_loop rest allowed seen_values
      else unique_values_loop rest
             (allowed @
                [\<lparr>av_short_form = val_str, av_full_form = val_str,
                  av_aliases = generate_aliases (Some val_str) (Some val_str)\<rparr>])
             (insert val_str seen_values))"

definition build_allowed_values :: "table \<Rightarrow> string \<Rightarrow> attribute_value list" where
  "build_allowed_values combined_df col =
     (let full_name_col = col @ '' FULL NAME'';
          has_full_names = (full_name_col \<in> set (columns combined_df))
      in if has_full_names then value_df_loop (value_df combined_df col full_name_col) [] {}
         else unique_values_loop (unique_values combined_df col) [] {})"

text \<open>The attribute appended for column \<open>col\<close> with normalized key \<open>k\<close>.\<close>

definition make_attribute :: "table \<Rightarrow> string \<Rightarrow> string \<Rightarrow> attribute" where
  "make_attribute combined_df col k =
     \<lparr>attr_key = k, attr_label = col, attr_full_form = col,
      attr_category = categorize_attribute k,
      attr_ai_extractable = is_ai_extractable k,
      attr_visible_from_distance = is_visible k,
      attr_extraction_priority = get_priority k,
      attr_allowed_values = build_allowed_values combined_df col\<rparr>"

text \<open>
  The loop over \<open>attr_cols\<close>, with the list \<open>attributes\<close> and the set \<open>processed_attrs\<close>.
  \<open>not key\<close> holds for \<open>None\<close> and for the empty string.
\<close>

fun attributes_loop ::
  "table \<Rightarrow> string list \<Rightarrow> attribute list \<Rightarrow> string set \<Rightarrow> attribute list" where
  "attributes_loop combined_df [] attrs processed_attrs = attrs"
| "attributes_loop combined_df (col # cols) attrs processed_attrs =
     (case normalize_key (Some col) of
        None \<Rightarrow> attributes_loop combined_df cols attrs processed_attrs
      | Some k \<Rightarrow>
          if k = [] \<or> k \<in> processed_attrs
          then attributes_loop combined_df cols attrs processed_attrs
          else attributes_loop combined_df cols
                 (attrs @ [make_attribute combined_df col k]) (insert k processed_attrs))"

definition extract_attributes :: "table \<Rightarrow> attribute list" where
  "extract_attributes combined_df = attributes_loop combined_df (attr_cols combined_df) [] {}"

section \<open>Category-attribute mappings\<close>

text \<open>The inner loop over \<open>attr_cols\<close> for one category value and its rows \<open>cat_df\<close>.\<close>

fun mappings_of_category :: "row list \<Rightarrow> string \<Rightarrow> string list \<Rightarrow> category_mapping list" where
  "mappings_of_category cat_rows cat_code [] = []"
| "mappings_of_category cat_rows cat_code (col # cols) =
     (if list_ex (\<lambda>r. notna (r col)) cat_rows
      then (case normalize_key (Some col) of
              None \<Rightarrow> []
            | Some k \<Rightarrow>
                if k \<noteq> [] then [\<lparr>cm_major_category = strip cat_code, cm_attribute = k\<rparr>]
                else [])
      else [])
     @ mappings_of_category cat_rows cat_code cols"

text \<open>The outer loop over \<open>combined_df['MAJOR CATEGORY'].unique()\<close>; a missing value is skipped.\<close>

fun mappings_loop :: "table \<Rightarrow> cell list \<Rightarrow> category_mapping list" where
  "mappings_loop combined_df [] = []"
| "mappings_loop combined_df (None # cat_codes) = mappings_loop combined_df cat_codes"
| "mappings_loop combined_df (Some cat_code # cat_codes) =
     mappings_of_category
       (filter (\<lambda>r. r ''MAJOR CATEGORY'' = Some cat_code) (rows combined_df))
       cat_code (attr_cols combined_df)
     @ mappings_loop combined_df cat_codes"

definition build_category_mappings :: "table \<Rightarrow> category_mapping list" where
  "build_category_mappings combined_df =
     mappings_loop combined_df
       (drop_duplicates (map (\<lambda>r. r ''MAJOR CATEGORY'') (rows combined_df)))"

section \<open>\<open>parse_excel\<close>\<close>

text \<open>
  Selecting a column the table does not have raises \<open>KeyError\<close>, which ends the run with
  no output. These are the columns \<open>parse_excel\<close> selects by name.
\<close>

datatype error = KeyError

definition required_cols :: "string list" where
  "required_cols =
     [''FINISHED GOODS DIVISION'', ''FINISHED GOODS DIVISION FULL NAME'',
      ''SUB-DIVISION'', ''SUB-DIVISION FULL NAME'',
      ''MAJOR CATEGORY'', ''MAJOR CATEGORY FULL FORM'',
      ''MERCHENDISE CATEGORY CODE'', ''MERCHENDISE CATEGORY DESCRIPTION'',
      ''FABRIC_SHEET'']"

definition parse_excel :: "table \<Rightarrow> error + parse_result" where
  "parse_excel combined_df =
     (if \<not> list_all (\<lambda>col. col \<in> set (columns combined_df)) required_cols then Inl KeyError
      else Inr \<lparr>departments = extract_departments combined_df,
                sub_divisions = extract_sub_divisions combined_df,
                major_categories = extract_major_categories combined_df,
                attributes = extract_attributes combined_df,
                category_mappings = build_category_mappings combined_df\<rparr>)"

section \<open>An example table\<close>

text \<open>
  One sheet, \<open>KNITS-U\<close>, with three rows of the major category \<open>KNIT-TOP\<close> that differ
  in their merchandise category code; two columns, \<open>SLEEVE TYPE\<close> and \<open>SLEEVE-TYPE\<close>, with
  the same normalized key, of which only the second has a value; and a column \<open>NECK\<close> with
  its companion \<open>NECK FULL NAME\<close>, where the short form \<open>RN\<close> has two full forms.
\<close>

definition example_row :: row where
  "example_row =
     [''FINISHED GOODS DIVISION'' \<mapsto> ''MENS'',
      ''FINISHED GOODS DIVISION FULL NAME'' \<mapsto> ''Mens Wear'',
      ''SUB-DIVISION'' \<mapsto> ''MU'',
      ''SUB-DIVISION FULL NAME'' \<mapsto> ''Mens Upper'',
      ''MAJOR CATEGORY'' \<mapsto> ''KNIT-TOP'',
      ''FABRIC_SHEET'' \<mapsto> ''KNITS-U'']"

definition example_row1 :: row where
  "example_row1 =
     example_row(''MERCHENDISE CATEGORY CODE'' \<mapsto> ''M1'',
                 ''NECK'' \<mapsto> ''RN'', ''NECK FULL NAME'' \<mapsto> ''Round Neck'')"

definition example_row2 :: row where
  "example_row2 =
     example_row(''MERCHENDISE CATEGORY CODE'' \<mapsto> ''M2'',
                 ''SLEEVE-TYPE'' \<mapsto> ''HS'',
                 ''NECK'' \<mapsto> ''RN'', ''NECK FULL NAME'' \<mapsto> ''Round'')"

definition example_row3 :: row where
  "example_row3 = example_row(''MERCHENDISE CATEGORY CODE'' \<mapsto> ''M3'')"

definition example_table :: table where
  "example_table =
     \<lparr>columns = required_cols @ [''SLEEVE TYPE'', ''SLEEVE-TYPE'', ''NECK'', ''NECK FULL NAME''],
      rows = [example_row1, example_row2, example_row3]\<rparr>"

text \<open>What \<open>parse_excel\<close> returns on the example table.\<close>

definition example_result :: parse_result where
  "example_result =
     \<lparr>departments = extract_departments example_table,
      sub_divisions = extract_sub_divisions example_table,
      major_categories = extract_major_categories example_table,
      attributes = extract_attributes example_table,
      category_mappings = build_category_mappings example_table\<rparr>"

text \<open>
  A second table: the column \<open>NECK STYLE\<close> has no companion column, and two of its three
  values differ only in a trailing space.
\<close>

definition example_table2 :: table where
  "example_table2 =
     \<lparr>columns = required_cols @ [''NECK STYLE''],
      rows = [example_row(''NECK STYLE'' \<mapsto> ''Round''),
              example_row(''NECK STYLE'' \<mapsto> ''V-Shape''),
              example_row(''NECK STYLE'' \<mapsto> ''Round '')]\<rparr>"

definition example_result2 :: parse_result where
  "example_result2 =
     \<lparr>departments = extract_departments example_table2,
      sub_divisions = extract_sub_divisions example_table2,
      major_categories = extract_major_categories example_table2,
      attributes = extract_attributes example_table2,
      category_mappings = build_category_mappings example_table2\<rparr>"

section \<open>Properties of the helper functions\<close>

subsection \<open>\<open>get_priority\<close>\<close>

lemma first_priority_first_match:
  "(\<exists>i < length items. contains (fst (items ! i)) key
        \<and> (\<forall>j < i. \<not> contains (fst (items ! j)) key)
        \<and> first_priority items key = snd (items ! i))
   \<or> ((\<forall>kw \<in> set (map fst items). \<not> contains kw key) \<and> first_priority items key = 50)"
proof (induction items)
  case Nil
  then show ?case by simp
next
  case (Cons a items)
  obtain kw p where a: "a = (kw, p)" by (cases a)
  show ?case
  proof (cases "contains kw key")
    case True
    then have "contains (fst ((a # items) ! 0)) key
        \<and> (\<forall>j < 0. \<not> contains (fst ((a # items) ! j)) key)
        \<and> first_priority (a # items) key = snd ((a # items) ! 0)"
      by (simp add: a)
    then show ?thesis by blast
  next
    case False
    from Cons.IH show ?thesis
    proof
      assume "\<exists>i < length items. contains (fst (items ! i)) key
        \<and> (\<forall>j < i. \<not> contains (fst (items ! j)) key)
        \<and> first_priority items key = snd (items ! i)"
      then obtain i where i: "i < length items" "contains (fst (items ! i)) key"
        "\<forall>j < i. \<not> contains (fst (items ! j)) key"
        "first_priority items key = snd (items ! i)" by blast
      have "\<forall>j < Suc i. \<not> contains (fst ((a # items) ! j)) key"
      proof (intro allI impI)
        fix j assume "j < Suc i"
        then show "\<not> contains (fst ((a # items) ! j)) key"
          using False i(3) by (cases j) (simp_all add: a)
      qed
      then have "Suc i < length (a # items) \<and> contains (fst ((a # items) ! Suc i)) key
        \<and> (\<forall>j < Suc i. \<not> contains (fst ((a # items) ! j)) key)
        \<and> first_priority (a # items) key = snd ((a # items) ! Suc i)"
        using i False by (simp add: a)
      then show ?thesis by blast
    next
      assume "(\<forall>kw \<in> set (map fst items). \<not> contains kw key) \<and> first_priority items key = 50"
      then show ?thesis using False by (simp add: a)
    qed
  qed
qed

lemma first_priority_range:
  "\<forall>(kw, p) \<in> set items. lo \<le> p \<and> p \<le> hi \<Longrightarrow> lo \<le> 50 \<Longrightarrow> 50 \<le> hi \<Longrightarrow>
   lo \<le> first_priority items key \<and> first_priority items key \<le> hi"
  by (induction items) auto

text \<open>
  Claim C2, as stated: \<open>get_priority\<close> returns the priority of the first keyword of the
  specification's table, scanned in the specification's order, that the key contains.
  The dictionary of the script has another order (\<open>FIT\<close> and \<open>PATTERN\<close> come before
  \<open>COLOR\<close>, \<open>EMBROIDERY\<close> before \<open>PLACKET\<close>), so the two scans differ on a key that
  contains \<open>FIT\<close> and \<open>COLOR\<close>.
\<close>

theorem get_priority_spec_order_counterexample:
  "get_priority ''FIT_COLOR'' = 85 \<and> spec_get_priority ''FIT_COLOR'' = 90"
  by (simp add: get_priority_def priorities_def spec_get_priority_def spec_priorities_def)

text \<open>
  Claim C2, amended: \<open>get_priority\<close> returns the priority of the first keyword the key
  contains when the table is scanned in the order of the script's dictionary (NECK=95,
  COLLAR=90, SLEEVES=90, FIT=85, PATTERN=85, COLOR=90, STYLE=80, LENGTH=75, PRINT=70,
  EMBROIDERY=65, PLACKET=70, POCKET=65, WAIST=75, CLOSURE=70), and 50 when the key
  contains no keyword of the table.
\<close>

theorem get_priority_first_match:
  "priorities =
     [(''NECK'', 95), (''COLLAR'', 90), (''SLEEVES'', 90), (''FIT'', 85), (''PATTERN'', 85),
      (''COLOR'', 90), (''STYLE'', 80), (''LENGTH'', 75), (''PRINT'', 70),
      (''EMBROIDERY'', 65), (''PLACKET'', 70), (''POCKET'', 65), (''WAIST'', 75),
      (''CLOSURE'', 70)]
   \<and> ((\<exists>i < length priorities. contains (fst (priorities ! i)) key
          \<and> (\<forall>j < i. \<not> contains (fst (priorities ! j)) key)
          \<and> get_priority key = snd (priorities ! i))
      \<or> ((\<forall>kw \<in> set (map fst priorities). \<not> contains kw key) \<and> get_priority key = 50))"
proof (rule conjI)
  show "priorities =
     [(''NECK'', 95), (''COLLAR'', 90), (''SLEEVES'', 90), (''FIT'', 85), (''PATTERN'', 85),
      (''COLOR'', 90), (''STYLE'', 80), (''LENGTH'', 75), (''PRINT'', 70),
      (''EMBROIDERY'', 65), (''PLACKET'', 70), (''POCKET'', 65), (''WAIST'', 75),
      (''CLOSURE'', 70)]"
    by (rule priorities_def)
next
  show "(\<exists>i < length priorities. contains (fst (priorities ! i)) key
          \<and> (\<forall>j < i. \<not> contains (fst (priorities ! j)) key)
          \<and> get_priority key = snd (priorities ! i))
      \<or> ((\<forall>kw \<in> set (map fst priorities). \<not> contains kw key) \<and> get_priority key = 50)"
    unfolding get_priority_def by (rule first_priority_first_match)
qed

theorem get_priority_first_match_witness:
  "get_priority ''HEM'' = 50"
proof -
  have none: "\<forall>kw \<in> set (map fst priorities). \<not> contains kw ''HEM''"
    by (simp add: priorities_def)
  have "\<not> (\<exists>i < length priorities. contains (fst (priorities ! i)) ''HEM''
          \<and> (\<forall>j < i. \<not> contains (fst (priorities ! j)) ''HEM'')
          \<and> get_priority ''HEM'' = snd (priorities ! i))"
  proof
    assume "\<exists>i < length priorities. contains (fst (priorities ! i)) ''HEM''
          \<and> (\<forall>j < i. \<not> contains (fst (priorities ! j)) ''HEM'')
          \<and> get_priority ''HEM'' = snd (priorities ! i)"
    then obtain i where i: "i < length priorities" "contains (fst (priorities ! i)) ''HEM''"
      by blast
    from i(1) have "fst (priorities ! i) \<in> set (map fst priorities)"
      by (metis length_map nth_map nth_mem)
    with none i(2) show False by blast
  qed
  with get_priority_first_match [of "''HEM''"] show "get_priority ''HEM'' = 50" by blast
qed

text \<open>
  Claim C7: for every key, \<open>get_priority\<close> returns an integer between 1 and 100, and a
  key that contains \<open>NECK\<close> has priority 95, whatever other keywords it contains.
\<close>

theorem get_priority_range_neck:
  "1 \<le> get_priority key \<and> get_priority key \<le> 100
   \<and> (contains ''NECK'' key \<longrightarrow> get_priority key = 95)"
proof -
  have "1 \<le> get_priority key \<and> get_priority key \<le> 100"
    unfolding get_priority_def
    by (rule first_priority_range) (simp_all add: priorities_def)
  moreover have "contains ''NECK'' key \<longrightarrow> get_priority key = 95"
    by (simp add: get_priority_def priorities_def)
  ultimately show ?thesis by simp
qed

theorem get_priority_range_neck_witness:
  "contains ''NECK'' ''NECK_COLLAR_FIT'' \<and> contains ''COLLAR'' ''NECK_COLLAR_FIT''
   \<and> get_priority ''NECK_COLLAR_FIT'' = 95"
  using get_priority_range_neck [of "''NECK_COLLAR_FIT''"] by simp

subsection \<open>\<open>normalize_key\<close>\<close>















subsection \<open>\<open>generate_aliases\<close>\<close>

text \<open>
  Claim C8: with short form \<open>V-NECK\<close> and full form \<open>V Neck\<close>, the aliases contain
  \<open>V-NECK\<close> and \<open>V NECK\<close>; no alias is the empty string, for any pair; and when the full
  form equals the short form, every alias is one of the three variants of the short
  form: the short form stripped, the short form with each underscore replaced by a
  space, the short form with each hyphen replaced by a space.
\<close>

theorem generate_aliases_variants:
  "''V-NECK'' \<in> generate_aliases (Some ''V-NECK'') (Some ''V Neck'')
   \<and> ''V NECK'' \<in> generate_aliases (Some ''V-NECK'') (Some ''V Neck'')
   \<and> [] \<notin> generate_aliases short_form full_form
   \<and> (full_form = short_form \<longrightarrow>
        (\<forall>a \<in> generate_aliases short_form full_form.
           a = strip (py_str short_form)
           \<or> a = replace (CHR ''_'') (CHR '' '') (py_str short_form)
           \<or> a = replace (CHR ''-'') (CHR '' '') (py_str short_form)))"
proof -
  have "generate_aliases (Some ''V-NECK'') (Some ''V Neck'') = {''V-NECK'', ''V NECK'', ''V Neck''}"
    by (auto simp: generate_aliases_def variants_def present_def py_str_def strip_def
        isspace_def replace_def)
  moreover have "[] \<notin> generate_aliases short_form full_form"
    by (simp add: generate_aliases_def)
  moreover have "full_form = short_form \<longrightarrow>
        (\<forall>a \<in> generate_aliases short_form full_form.
           a = strip (py_str short_form)
           \<or> a = replace (CHR ''_'') (CHR '' '') (py_str short_form)
           \<or> a = replace (CHR ''-'') (CHR '' '') (py_str short_form))"
    by (auto simp: generate_aliases_def variants_def)
  ultimately show ?thesis by simp
qed

theorem generate_aliases_variants_witness:
  "generate_aliases (Some ''A_B-C'') (Some ''A_B-C'') = {''A_B-C'', ''A B-C'', ''A_B C''}"
proof -
  have "generate_aliases (Some ''A_B-C'') (Some ''A_B-C'') \<supseteq> {''A_B-C'', ''A B-C'', ''A_B C''}"
    by (simp add: generate_aliases_def variants_def present_def py_str_def strip_def
        isspace_def replace_def)
  moreover have "generate_aliases (Some ''A_B-C'') (Some ''A_B-C'') \<subseteq> {''A_B-C'', ''A B-C'', ''A_B C''}"
    using generate_aliases_variants [of "Some ''A_B-C''" "Some ''A_B-C''"]
    by (auto simp: py_str_def strip_def isspace_def replace_def)
  ultimately show ?thesis by blast
qed

section \<open>Properties of \<open>parse_excel\<close>\<close>

subsection \<open>The run on a table\<close>

lemma parse_excel_Inr:
  "parse_excel df = Inr out \<Longrightarrow>
   major_categories out = extract_major_categories df
   \<and> attributes out = extract_attributes df
   \<and> category_mappings out = build_category_mappings df"
  by (auto simp: parse_excel_def split: if_splits)

lemma set_drop_duplicates: "set (drop_duplicates xs) = set xs"
  by (simp add: drop_duplicates_def)

subsection \<open>The attribute loop\<close>

lemma find_append_Some: "find P xs = Some x \<Longrightarrow> find P (xs @ ys) = Some x"
  by (induction xs) (auto split: if_splits)

lemma find_append_None: "find P xs = None \<Longrightarrow> find P (xs @ ys) = find P ys"
  by (induction xs) (auto split: if_splits)

lemma attr_sel_make [simp]:
  "attr_key (make_attribute df col k) = k"
  "attr_label (make_attribute df col k) = col"
  "attr_full_form (make_attribute df col k) = col"
  "attr_allowed_values (make_attribute df col k) = build_allowed_values df col"
  by (simp_all add: make_attribute_def)

text \<open>
  The invariant of the loop over \<open>attr_cols\<close>, with \<open>dn\<close> the columns already visited:
  \<open>processed_attrs\<close> holds the keys of the attributes built so far, the keys are distinct,
  every attribute was built from the first visited column with its key, and every
  non-empty key of a visited column has its attribute.
\<close>

lemma attributes_loop_inv:
  assumes "P = set (map attr_key attrs)"
    and "distinct (map attr_key attrs)"
    and "\<forall>a \<in> set attrs. a = make_attribute df (attr_label a) (attr_key a)
           \<and> find (\<lambda>c. normalize_key (Some c) = Some (attr_key a)) dn = Some (attr_label a)
           \<and> attr_key a \<noteq> []"
    and "\<forall>c \<in> set dn. \<forall>k. normalize_key (Some c) = Some k \<longrightarrow> k \<noteq> [] \<longrightarrow> k \<in> P"
  shows "distinct (map attr_key (attributes_loop df cols attrs P))
     \<and> (\<forall>a \<in> set (attributes_loop df cols attrs P).
           a = make_attribute df (attr_label a) (attr_key a)
           \<and> find (\<lambda>c. normalize_key (Some c) = Some (attr_key a)) (dn @ cols) = Some (attr_label a)
           \<and> attr_key a \<noteq> [])
     \<and> (\<forall>c \<in> set (dn @ cols). \<forall>k. normalize_key (Some c) = Some k \<longrightarrow> k \<noteq> [] \<longrightarrow>
           k \<in> set (map attr_key (attributes_loop df cols attrs P)))"
  using assms
proof (induction cols arbitrary: dn attrs P)
  case Nil
  then show ?case by simp
next
  case (Cons col cols)
  let ?skip = "normalize_key (Some col) = None \<or> normalize_key (Some col) = Some []
                 \<or> (\<exists>k. normalize_key (Some col) = Some k \<and> k \<in> P)"
  show ?case
  proof (cases ?skip)
    case True
    then have eq: "attributes_loop df (col # cols) attrs P = attributes_loop df cols attrs P"
      by (auto split: option.splits)
    have 3: "\<forall>a \<in> set attrs. a = make_attribute df (attr_label a) (attr_key a)
           \<and> find (\<lambda>c. normalize_key (Some c) = Some (attr_key a)) (dn @ [col]) = Some (attr_label a)
           \<and> attr_key a \<noteq> []"
      using Cons.prems(3) by (simp add: find_append_Some)
    have 4: "\<forall>c \<in> set (dn @ [col]). \<forall>k. normalize_key (Some c) = Some k \<longrightarrow> k \<noteq> [] \<longrightarrow> k \<in> P"
      using Cons.prems(4) True by auto
    from Cons.IH [OF Cons.prems(1) Cons.prems(2) 3 4] show ?thesis
      unfolding eq by simp
  next
    case False
    then obtain k where k: "normalize_key (Some col) = Some k" "k \<noteq> []" "k \<notin> P"
      by (cases "normalize_key (Some col)") auto
    let ?new = "make_attribute df col k"
    have eq: "attributes_loop df (col # cols) attrs P
        = attributes_loop df cols (attrs @ [?new]) (insert k P)"
      using k by simp
    have 1: "insert k P = set (map attr_key (attrs @ [?new]))"
      using Cons.prems(1) by simp
    have 2: "distinct (map attr_key (attrs @ [?new]))"
      using Cons.prems(1,2) k(3) by simp
    have nofind: "find (\<lambda>c. normalize_key (Some c) = Some k) dn = None"
      using Cons.prems(4) k(2,3) by (auto simp: find_None_iff)
    have 3: "\<forall>a \<in> set (attrs @ [?new]). a = make_attribute df (attr_label a) (attr_key a)
           \<and> find (\<lambda>c. normalize_key (Some c) = Some (attr_key a)) (dn @ [col]) = Some (attr_label a)
           \<and> attr_key a \<noteq> []"
      using Cons.prems(3) k nofind by (auto simp: find_append_Some find_append_None)
    have 4: "\<forall>c \<in> set (dn @ [col]). \<forall>k'. normalize_key (Some c) = Some k' \<longrightarrow> k' \<noteq> []
              \<longrightarrow> k' \<in> insert k P"
      using Cons.prems(4) k by auto
    from Cons.IH [OF 1 2 3 4] show ?thesis
      unfolding eq by simp
  qed
qed

lemma extract_attributes_props:
  "distinct (map attr_key (extract_attributes df))
     \<and> (\<forall>a \<in> set (extract_attributes df).
           a = make_attribute df (attr_label a) (attr_key a)
           \<and> find (\<lambda>c. normalize_key (Some c) = Some (attr_key a)) (attr_cols df) = Some (attr_label a)
           \<and> attr_key a \<noteq> [])
     \<and> (\<forall>c \<in> set (attr_cols df). \<forall>k. normalize_key (Some c) = Some k \<longrightarrow> k \<noteq> [] \<longrightarrow>
           k \<in> set (map attr_key (extract_attributes df)))"
  unfolding extract_attributes_def
  using attributes_loop_inv [of "{}" "[]" df "[]" "attr_cols df"] by simp

lemma extract_attributes_distinct: "distinct (map attr_key (extract_attributes df))"
  using extract_attributes_props [of df] by blast

lemma extract_attributes_first:
  "a \<in> set (extract_attributes df) \<Longrightarrow>
   find (\<lambda>col. normalize_key (Some col) = Some (attr_key a)) (attr_cols df) = Some (attr_label a)"
  using extract_attributes_props [of df] by blast

lemma extract_attributes_make:
  "a \<in> set (extract_attributes df) \<Longrightarrow> a = make_attribute df (attr_label a) (attr_key a)"
  using extract_attributes_props [of df] by blast

lemma extract_attributes_complete:
  "col \<in> set (attr_cols df) \<Longrightarrow> normalize_key (Some col) = Some k \<Longrightarrow> k \<noteq> [] \<Longrightarrow>
   \<exists>a \<in> set (extract_attributes df). attr_key a = k"
proof -
  assume "col \<in> set (attr_cols df)" "normalize_key (Some col) = Some k" "k \<noteq> []"
  then have "k \<in> set (map attr_key (extract_attributes df))"
    using extract_attributes_props [of df] by blast
  then show ?thesis by auto
qed

subsection \<open>The loops over the values of a column\<close>

lemma value_df_loop_skip:
  "strip (py_str s) \<in> seen \<Longrightarrow>
   value_df_loop ((s, f) # rest) allowed seen = value_df_loop rest allowed seen"
  by (simp add: Let_def)

lemma value_df_loop_add:
  "strip (py_str s) \<notin> seen \<Longrightarrow>
   value_df_loop ((s, f) # rest) allowed seen =
     value_df_loop rest
       (allowed @ [\<lparr>av_short_form = strip (py_str s), av_full_form = strip (py_str f),
                    av_aliases = generate_aliases (Some (strip (py_str s))) (Some (strip (py_str f)))\<rparr>])
       (insert (strip (py_str s)) seen)"
  by (simp add: Let_def)

lemma value_df_loop_mono: "v \<in> set allowed \<Longrightarrow> v \<in> set (value_df_loop pairs allowed seen)"
proof (induction pairs arbitrary: allowed seen)
  case Nil
  then show ?case by simp
next
  case (Cons p pairs)
  obtain s f where p: "p = (s, f)" by (cases p)
  show ?case
  proof (cases "strip (py_str s) \<in> seen")
    case True
    then show ?thesis unfolding p value_df_loop_skip [OF True] using Cons by blast
  next
    case False
    have "v \<in> set (allowed @ [\<lparr>av_short_form = strip (py_str s), av_full_form = strip (py_str f),
                    av_aliases = generate_aliases (Some (strip (py_str s))) (Some (strip (py_str f)))\<rparr>])"
      using Cons.prems by simp
    then show ?thesis unfolding p value_df_loop_add [OF False] by (rule Cons.IH)
  qed
qed

lemma value_df_loop_distinct:
  "distinct (map av_short_form allowed) \<Longrightarrow> av_short_form ` set allowed \<subseteq> seen \<Longrightarrow>
   distinct (map av_short_form (value_df_loop pairs allowed seen))"
proof (induction pairs arbitrary: allowed seen)
  case Nil
  then show ?case by simp
next
  case (Cons p pairs)
  obtain s f where p: "p = (s, f)" by (cases p)
  show ?case
  proof (cases "strip (py_str s) \<in> seen")
    case True
    show ?thesis unfolding p value_df_loop_skip [OF True] using Cons by blast
  next
    case False
    let ?new = "\<lparr>av_short_form = strip (py_str s), av_full_form = strip (py_str f),
                    av_aliases = generate_aliases (Some (strip (py_str s))) (Some (strip (py_str f)))\<rparr>"
    have 1: "distinct (map av_short_form (allowed @ [?new]))"
      using Cons.prems False by auto
    have 2: "av_short_form ` set (allowed @ [?new]) \<subseteq> insert (strip (py_str s)) seen"
      using Cons.prems(2) by auto
    show ?thesis unfolding p value_df_loop_add [OF False] using 1 2 by (rule Cons.IH)
  qed
qed

lemma value_df_loop_sound:
  "v \<in> set (value_df_loop pairs allowed seen) \<Longrightarrow>
   v \<in> set allowed
   \<or> (av_short_form v \<notin> seen
      \<and> (\<exists>s f. find (\<lambda>(s', f'). strip (py_str s') = av_short_form v) pairs = Some (s, f)
             \<and> av_full_form v = strip (py_str f)))"
proof (induction pairs arbitrary: allowed seen)
  case Nil
  then show ?case by simp
next
  case (Cons p pairs)
  obtain s f where p: "p = (s, f)" by (cases p)
  show ?case
  proof (cases "strip (py_str s) \<in> seen")
    case True
    from Cons.prems have "v \<in> set (value_df_loop pairs allowed seen)"
      unfolding p value_df_loop_skip [OF True] .
    from Cons.IH [OF this] show ?thesis
    proof
      assume "v \<in> set allowed" then show ?thesis by blast
    next
      assume h: "av_short_form v \<notin> seen
        \<and> (\<exists>s f. find (\<lambda>(s', f'). strip (py_str s') = av_short_form v) pairs = Some (s, f)
             \<and> av_full_form v = strip (py_str f))"
      then have "av_short_form v \<notin> seen" by (rule conjunct1)
      with True have "strip (py_str s) \<noteq> av_short_form v" by auto
      then have "find (\<lambda>(s', f'). strip (py_str s') = av_short_form v) (p # pairs)
          = find (\<lambda>(s', f'). strip (py_str s') = av_short_form v) pairs"
        by (simp add: p)
      with h show ?thesis by simp
    qed
  next
    case False
    let ?new = "\<lparr>av_short_form = strip (py_str s), av_full_form = strip (py_str f),
                    av_aliases = generate_aliases (Some (strip (py_str s))) (Some (strip (py_str f)))\<rparr>"
    from Cons.prems have "v \<in> set (value_df_loop pairs (allowed @ [?new]) (insert (strip (py_str s)) seen))"
      unfolding p value_df_loop_add [OF False] .
    from Cons.IH [OF this] show ?thesis
    proof
      assume "v \<in> set (allowed @ [?new])"
      then have "v \<in> set allowed \<or> v = ?new" by auto
      then show ?thesis
      proof
        assume "v \<in> set allowed" then show ?thesis by blast
      next
        assume v: "v = ?new"
        have "find (\<lambda>(s', f'). strip (py_str s') = av_short_form v) (p # pairs) = Some (s, f)"
          by (simp add: p v)
        moreover have "av_full_form v = strip (py_str f)" "av_short_form v \<notin> seen"
          using False by (simp_all add: v)
        ultimately show ?thesis by blast
      qed
    next
      assume h: "av_short_form v \<notin> insert (strip (py_str s)) seen
        \<and> (\<exists>s f. find (\<lambda>(s', f'). strip (py_str s') = av_short_form v) pairs = Some (s, f)
             \<and> av_full_form v = strip (py_str f))"
      then have "av_short_form v \<notin> insert (strip (py_str s)) seen" by (rule conjunct1)
      then have "strip (py_str s) \<noteq> av_short_form v" by auto
      then have "find (\<lambda>(s', f'). strip (py_str s') = av_short_form v) (p # pairs)
          = find (\<lambda>(s', f'). strip (py_str s') = av_short_form v) pairs"
        by (simp add: p)
      with h show ?thesis by simp
    qed
  qed
qed

lemma value_df_loop_complete:
  "(s, f) \<in> set pairs \<Longrightarrow> seen \<subseteq> av_short_form ` set allowed \<Longrightarrow>
   strip (py_str s) \<in> av_short_form ` set (value_df_loop pairs allowed seen)"
proof (induction pairs arbitrary: allowed seen)
  case Nil
  then show ?case by simp
next
  case (Cons p pairs)
  obtain s0 f0 where p: "p = (s0, f0)" by (cases p)
  let ?new = "\<lparr>av_short_form = strip (py_str s0), av_full_form = strip (py_str f0),
                    av_aliases = generate_aliases (Some (strip (py_str s0))) (Some (strip (py_str f0)))\<rparr>"
  show ?case
  proof (cases "strip (py_str s0) \<in> seen")
    case True
    show ?thesis
    proof (cases "(s, f) = p")
      case eq: True
      then have "strip (py_str s) \<in> av_short_form ` set allowed"
        using True Cons.prems(2) p by auto
      then show ?thesis using value_df_loop_mono by (metis (no_types, lifting) image_iff)
    next
      case False
      then have "(s, f) \<in> set pairs" using Cons.prems(1) by simp
      then show ?thesis unfolding p value_df_loop_skip [OF True]
        using Cons.prems(2) by (rule Cons.IH)
    qed
  next
    case notseen: False
    have sub: "insert (strip (py_str s0)) seen \<subseteq> av_short_form ` set (allowed @ [?new])"
      using Cons.prems(2) by auto
    show ?thesis
    proof (cases "(s, f) = p")
      case True
      then have "strip (py_str s) = av_short_form ?new" using p by simp
      moreover have "?new \<in> set (value_df_loop pairs (allowed @ [?new]) (insert (strip (py_str s0)) seen))"
        by (rule value_df_loop_mono) simp
      ultimately show ?thesis unfolding p value_df_loop_add [OF notseen]
        by (metis (no_types, lifting) image_iff)
    next
      case False
      then have "(s, f) \<in> set pairs" using Cons.prems(1) by simp
      then show ?thesis unfolding p value_df_loop_add [OF notseen]
        using sub by (rule Cons.IH)
    qed
  qed
qed

lemma unique_values_loop_eq:
  "unique_values_loop vs allowed seen = value_df_loop (map (\<lambda>v. (v, v)) vs) allowed seen"
  by (induction vs arbitrary: allowed seen) (simp_all add: Let_def)

lemma value_df_loop_first:
  "v \<in> set (value_df_loop pairs [] {}) \<Longrightarrow>
   \<exists>s f. find (\<lambda>(s', f'). strip (py_str s') = av_short_form v) pairs = Some (s, f)
         \<and> av_full_form v = strip (py_str f)"
  using value_df_loop_sound [of v pairs "[]" "{}"] by simp

lemma value_df_loop_all_short_forms:
  "(s, f) \<in> set pairs \<Longrightarrow>
   strip (py_str s) \<in> set (map av_short_form (value_df_loop pairs [] {}))"
  using value_df_loop_complete [of s f pairs "{}" "[]"] by simp

lemma value_df_loop_distinct_init:
  "distinct (map av_short_form (value_df_loop pairs [] {}))"
  using value_df_loop_distinct [of "[]" "{}" pairs] by simp

lemma value_df_loop_same:
  assumes "v \<in> set (value_df_loop (map (\<lambda>x. (x, x)) vs) [] {})"
  shows "av_full_form v = av_short_form v \<and> (\<exists>x \<in> set vs. av_short_form v = strip (py_str x))"
proof -
  from value_df_loop_first [OF assms] obtain s f where
    h: "find (\<lambda>(s', f'). strip (py_str s') = av_short_form v) (map (\<lambda>x. (x, x)) vs) = Some (s, f)"
    and full: "av_full_form v = strip (py_str f)" by blast
  from h have "(s, f) \<in> set (map (\<lambda>x. (x, x)) vs)" "strip (py_str s) = av_short_form v"
    by (auto simp: find_Some_iff)
  then have sf: "s \<in> set vs" "f = s" "av_short_form v = strip (py_str s)" by auto
  then have "av_full_form v = av_short_form v" using full by simp
  moreover have "\<exists>x \<in> set vs. av_short_form v = strip (py_str x)"
    using sf(1,3) by (rule bexI [rotated])
  ultimately show ?thesis by (rule conjI)
qed

lemma build_allowed_values_companion:
  "fn = col @ '' FULL NAME'' \<Longrightarrow> fn \<in> set (columns df) \<Longrightarrow>
   build_allowed_values df col = value_df_loop (value_df df col fn) [] {}"
  by (simp add: build_allowed_values_def Let_def)

lemma build_allowed_values_alone:
  "fn = col @ '' FULL NAME'' \<Longrightarrow> fn \<notin> set (columns df) \<Longrightarrow>
   build_allowed_values df col
     = value_df_loop (map (\<lambda>x. (x, x)) (unique_values df col)) [] {}"
  by (simp add: build_allowed_values_def Let_def unique_values_loop_eq)

lemma build_allowed_values_distinct:
  "distinct (map av_short_form (build_allowed_values df col))"
proof (cases "col @ '' FULL NAME'' \<in> set (columns df)")
  case True
  show ?thesis
    unfolding build_allowed_values_companion [OF refl True]
    by (rule value_df_loop_distinct_init)
next
  case False
  show ?thesis
    unfolding build_allowed_values_alone [OF refl False]
    by (rule value_df_loop_distinct_init)
qed

subsection \<open>The mapping loops\<close>

lemma category_mapping_eq:
  "(e = \<lparr>cm_major_category = m, cm_attribute = k\<rparr>)
     = (cm_major_category e = m \<and> cm_attribute e = k)"
  by (cases e) simp

lemma set_mappings_of_category:
  "(e \<in> set (mappings_of_category rs c cols)) =
   (\<exists>col \<in> set cols. (\<exists>r \<in> set rs. r col \<noteq> None)
       \<and> normalize_key (Some col) = Some (cm_attribute e)
       \<and> cm_attribute e \<noteq> [] \<and> cm_major_category e = strip c)"
proof (induction cols)
  case Nil
  then show ?case by simp
next
  case (Cons col cols)
  let ?nk = "normalize_key (Some col)"
  let ?Q = "(\<exists>r \<in> set rs. r col \<noteq> None) \<and> (\<exists>k. ?nk = Some k \<and> k \<noteq> [])"
  have list_eq: "(if list_ex (\<lambda>r. notna (r col)) rs
        then (case ?nk of
                None \<Rightarrow> []
              | Some k \<Rightarrow>
                  if k \<noteq> [] then [\<lparr>cm_major_category = strip c, cm_attribute = k\<rparr>] else [])
        else [])
      = (if ?Q then [\<lparr>cm_major_category = strip c, cm_attribute = the ?nk\<rparr>] else [])"
    by (cases ?nk) (simp_all add: list_ex_iff notna_def)
  have head: "e \<in> set (if ?Q then [\<lparr>cm_major_category = strip c, cm_attribute = the ?nk\<rparr>] else [])
      \<longleftrightarrow> ((\<exists>r \<in> set rs. r col \<noteq> None) \<and> ?nk = Some (cm_attribute e)
         \<and> cm_attribute e \<noteq> [] \<and> cm_major_category e = strip c)"
    by (cases ?nk) (auto simp: category_mapping_eq)
  show ?case
    unfolding mappings_of_category.simps list_eq set_append Un_iff head Cons.IH by simp
qed

lemma set_mappings_loop:
  "e \<in> set (mappings_loop df cs) \<longleftrightarrow>
   (\<exists>c. Some c \<in> set cs
      \<and> e \<in> set (mappings_of_category
                   (filter (\<lambda>r. r ''MAJOR CATEGORY'' = Some c) (rows df)) c (attr_cols df)))"
  by (induction df cs rule: mappings_loop.induct) auto

lemma set_build_category_mappings:
  "e \<in> set (build_category_mappings df) \<longleftrightarrow>
   (\<exists>r \<in> set (rows df). \<exists>c. r ''MAJOR CATEGORY'' = Some c \<and> cm_major_category e = strip c
       \<and> (\<exists>col \<in> set (attr_cols df). r col \<noteq> None
             \<and> normalize_key (Some col) = Some (cm_attribute e) \<and> cm_attribute e \<noteq> []))"
  (is "?L \<longleftrightarrow> ?R")
proof
  assume L: ?L
  have "\<exists>c. Some c \<in> set (drop_duplicates (map (\<lambda>r. r ''MAJOR CATEGORY'') (rows df)))
      \<and> e \<in> set (mappings_of_category
                   (filter (\<lambda>r. r ''MAJOR CATEGORY'' = Some c) (rows df)) c (attr_cols df))"
    using L unfolding build_category_mappings_def by (rule iffD1 [OF set_mappings_loop])
  then obtain c where c2: "e \<in> set (mappings_of_category
                   (filter (\<lambda>r. r ''MAJOR CATEGORY'' = Some c) (rows df)) c (attr_cols df))"
    by (elim exE conjE)
  have "\<exists>col \<in> set (attr_cols df).
       (\<exists>r \<in> set (filter (\<lambda>r. r ''MAJOR CATEGORY'' = Some c) (rows df)). r col \<noteq> None)
       \<and> normalize_key (Some col) = Some (cm_attribute e)
       \<and> cm_attribute e \<noteq> [] \<and> cm_major_category e = strip c"
    using c2 by (rule iffD1 [OF set_mappings_of_category])
  then obtain col r where h: "col \<in> set (attr_cols df)"
    "r \<in> set (filter (\<lambda>r. r ''MAJOR CATEGORY'' = Some c) (rows df))" "r col \<noteq> None"
    "normalize_key (Some col) = Some (cm_attribute e)" "cm_attribute e \<noteq> []"
    "cm_major_category e = strip c"
    by (elim bexE conjE)
  from h(2) have r: "r \<in> set (rows df)" "r ''MAJOR CATEGORY'' = Some c"
    by (simp_all only: set_filter mem_Collect_eq)
  show ?R
  proof (intro bexI [OF _ r(1)] exI [of _ c] conjI bexI [OF _ h(1)])
    show "r ''MAJOR CATEGORY'' = Some c" by (rule r(2))
    show "cm_major_category e = strip c" by (rule h(6))
    show "r col \<noteq> None" by (rule h(3))
    show "normalize_key (Some col) = Some (cm_attribute e)" by (rule h(4))
    show "cm_attribute e \<noteq> []" by (rule h(5))
  qed
next
  assume ?R
  then obtain r c col where h: "r \<in> set (rows df)" "r ''MAJOR CATEGORY'' = Some c"
    "cm_major_category e = strip c" "col \<in> set (attr_cols df)" "r col \<noteq> None"
    "normalize_key (Some col) = Some (cm_attribute e)" "cm_attribute e \<noteq> []"
    by (elim bexE exE conjE)
  have "r ''MAJOR CATEGORY'' \<in> (\<lambda>r. r ''MAJOR CATEGORY'') ` set (rows df)"
    using h(1) by (rule imageI)
  then have 1: "Some c \<in> set (drop_duplicates (map (\<lambda>r. r ''MAJOR CATEGORY'') (rows df)))"
    unfolding set_drop_duplicates set_map h(2) .
  have rf: "r \<in> set (filter (\<lambda>r. r ''MAJOR CATEGORY'' = Some c) (rows df))"
    using h(1,2) by (simp only: set_filter mem_Collect_eq simp_thms)
  have 2: "e \<in> set (mappings_of_category
                   (filter (\<lambda>r. r ''MAJOR CATEGORY'' = Some c) (rows df)) c (attr_cols df))"
  proof (rule iffD2 [OF set_mappings_of_category], intro bexI [OF _ h(4)] conjI bexI [OF _ rf])
    show "r col \<noteq> None" by (rule h(5))
    show "normalize_key (Some col) = Some (cm_attribute e)" by (rule h(6))
    show "cm_attribute e \<noteq> []" by (rule h(7))
    show "cm_major_category e = strip c" by (rule h(3))
  qed
  show ?L
    unfolding build_category_mappings_def
    by (rule iffD2 [OF set_mappings_loop], intro exI [of _ c] conjI 1 2)
qed

subsection \<open>The run on the example table\<close>

lemma example_run: "parse_excel example_table = Inr example_result"
  by (simp add: parse_excel_def example_result_def example_table_def required_cols_def)

lemma example_attr_cols: "attr_cols example_table = [''SLEEVE TYPE'', ''SLEEVE-TYPE'', ''NECK'']"
  by (simp add: attr_cols_def all_cols_def example_table_def required_cols_def HIERARCHY_COLS_def)

lemma example_keys:
  "normalize_key (Some ''SLEEVE TYPE'') = Some ''SLEEVE_TYPE''"
  "normalize_key (Some ''SLEEVE-TYPE'') = Some ''SLEEVE_TYPE''"
  "normalize_key (Some ''NECK'') = Some ''NECK''"
  by (simp_all add: normalize_key_def present_def py_str_def strip_def isspace_def replace_def
      upper_def upper_char_def upper_table_def)

lemma example_attributes:
  "attributes example_result =
     [make_attribute example_table ''SLEEVE TYPE'' ''SLEEVE_TYPE'',
      make_attribute example_table ''NECK'' ''NECK'']"
  by (simp add: example_result_def extract_attributes_def example_attr_cols example_keys)

lemma example_cells:
  "example_row1 ''MAJOR CATEGORY'' = Some ''KNIT-TOP''"
  "example_row2 ''MAJOR CATEGORY'' = Some ''KNIT-TOP''"
  "example_row3 ''MAJOR CATEGORY'' = Some ''KNIT-TOP''"
  "example_row1 ''SLEEVE TYPE'' = None"
  "example_row2 ''SLEEVE TYPE'' = None"
  "example_row3 ''SLEEVE TYPE'' = None"
  "example_row2 ''SLEEVE-TYPE'' = Some ''HS''"
  "example_row1 ''NECK'' = Some ''RN''"
  by (simp_all add: example_row1_def example_row2_def example_row3_def example_row_def)

lemma example_rows: "rows example_table = [example_row1, example_row2, example_row3]"
  by (simp add: example_table_def)

lemma strip_KNIT_TOP: "strip ''KNIT-TOP'' = ''KNIT-TOP''"
  by (simp add: strip_def isspace_def)

lemma example_cat_df:
  "cat_df example_table =
     [(Some ''MU'', Some ''KNIT-TOP'', None, Some ''M1'', None, Some ''KNITS-U''),
      (Some ''MU'', Some ''KNIT-TOP'', None, Some ''M2'', None, Some ''KNITS-U''),
      (Some ''MU'', Some ''KNIT-TOP'', None, Some ''M3'', None, Some ''KNITS-U'')]"
  by (simp add: cat_df_def example_rows drop_duplicates_def notna_def
      example_row1_def example_row2_def example_row3_def example_row_def)

lemma example_major_category_codes:
  "map mc_code (major_categories example_result)
     = [''KNIT-TOP'', ''KNIT-TOP_KNITS-U'', ''KNIT-TOP_KNITS-U'']"
  by (simp add: example_result_def extract_major_categories_def example_cat_df Let_def
      py_str_def strip_def isspace_def)

lemma example_value_df:
  "value_df example_table ''NECK'' ''NECK FULL NAME'' =
     [(Some ''RN'', Some ''Round Neck''), (Some ''RN'', Some ''Round'')]"
  by (simp add: value_df_def example_rows drop_duplicates_def notna_def
      example_row1_def example_row2_def example_row3_def example_row_def)

lemma example_neck_values:
  "map (\<lambda>v. (av_short_form v, av_full_form v))
     (build_allowed_values example_table ''NECK'') = [(''RN'', ''Round Neck'')]"
  by (simp add: build_allowed_values_def Let_def example_table_def required_cols_def
      value_df_def drop_duplicates_def notna_def
      example_row1_def example_row2_def example_row3_def example_row_def
      py_str_def strip_def isspace_def)

lemma example2_run: "parse_excel example_table2 = Inr example_result2"
  by (simp add: parse_excel_def example_result2_def example_table2_def required_cols_def)

lemma example2_attr_cols: "attr_cols example_table2 = [''NECK STYLE'']"
  by (simp add: attr_cols_def all_cols_def example_table2_def required_cols_def
      HIERARCHY_COLS_def)

lemma example2_key: "normalize_key (Some ''NECK STYLE'') = Some ''NECK_STYLE''"
  by (simp add: normalize_key_def present_def py_str_def strip_def isspace_def replace_def
      upper_def upper_char_def upper_table_def)

lemma example2_attributes:
  "attributes example_result2 = [make_attribute example_table2 ''NECK STYLE'' ''NECK_STYLE'']"
  by (simp add: example_result2_def extract_attributes_def example2_attr_cols example2_key)

lemma example2_unique_values:
  "unique_values example_table2 ''NECK STYLE''
     = [Some ''Round'', Some ''V-Shape'', Some ''Round '']"
  by (simp add: unique_values_def example_table2_def drop_duplicates_def notna_def)

lemma example2_neck_style_values:
  "map (\<lambda>v. (av_short_form v, av_full_form v))
     (build_allowed_values example_table2 ''NECK STYLE'')
     = [(''Round'', ''Round''), (''V-Shape'', ''V-Shape'')]"
proof -
  have "''NECK STYLE FULL NAME'' \<notin> set (columns example_table2)"
    by (simp add: example_table2_def required_cols_def)
  then show ?thesis
    by (simp add: build_allowed_values_def Let_def example2_unique_values
        py_str_def strip_def isspace_def)
qed

lemma example_edge_sleeve:
  "\<lparr>cm_major_category = ''KNIT-TOP'', cm_attribute = ''SLEEVE_TYPE''\<rparr>
     \<in> set (category_mappings example_result)"
proof -
  let ?e = "\<lparr>cm_major_category = ''KNIT-TOP'', cm_attribute = ''SLEEVE_TYPE''\<rparr>"
  have r: "example_row2 \<in> set (rows example_table)" by (simp add: example_rows)
  have col: "''SLEEVE-TYPE'' \<in> set (attr_cols example_table)" by (simp add: example_attr_cols)
  have "?e \<in> set (build_category_mappings example_table)"
  proof (rule iffD2 [OF set_build_category_mappings],
      intro bexI [OF _ r] exI [of _ "''KNIT-TOP''"] conjI bexI [OF _ col])
    show "example_row2 ''MAJOR CATEGORY'' = Some ''KNIT-TOP''" by (rule example_cells)
    show "cm_major_category ?e = strip ''KNIT-TOP''" by (simp add: strip_KNIT_TOP)
    show "example_row2 ''SLEEVE-TYPE'' \<noteq> None" by (simp add: example_cells)
    show "normalize_key (Some ''SLEEVE-TYPE'') = Some (cm_attribute ?e)" by (simp add: example_keys)
    show "cm_attribute ?e \<noteq> []" by simp
  qed
  then show ?thesis by (simp add: example_result_def)
qed

subsection \<open>Major categories\<close>

text \<open>
  Claim C1 says that the codes of the major categories in the output are pairwise
  distinct. The loop adds the suffixed code to \<open>seen_codes\<close> but does not test the
  suffixed code against \<open>seen_codes\<close>: on the example table, whose three rows of
  \<open>KNIT-TOP\<close> come from the one sheet \<open>KNITS-U\<close>, the second and the third entry both
  get the code \<open>KNIT-TOP_KNITS-U\<close>.
\<close>

theorem major_category_codes_repeat:
  "parse_excel example_table = Inr example_result
   \<and> map mc_code (major_categories example_result)
       = [''KNIT-TOP'', ''KNIT-TOP_KNITS-U'', ''KNIT-TOP_KNITS-U'']
   \<and> \<not> distinct (map mc_code (major_categories example_result))"
  by (simp add: example_run example_major_category_codes)

subsection \<open>Attributes\<close>

text \<open>
  Claim C3: in the attributes of the output the keys are pairwise distinct, and the first
  occurrence wins: the label of an attribute is the first attribute column whose
  normalized key is the key of the attribute.
\<close>

theorem attribute_keys_distinct:
  "parse_excel df = Inr out \<Longrightarrow>
   distinct (map attr_key (attributes out))
   \<and> (\<forall>a \<in> set (attributes out).
         find (\<lambda>col. normalize_key (Some col) = Some (attr_key a)) (attr_cols df)
           = Some (attr_label a))"
proof -
  assume "parse_excel df = Inr out"
  then have eq: "attributes out = extract_attributes df" using parse_excel_Inr by blast
  show ?thesis
    unfolding eq using extract_attributes_distinct extract_attributes_first by blast
qed

theorem attribute_keys_distinct_witness:
  "parse_excel example_table = Inr example_result
   \<and> distinct (map attr_key (attributes example_result))
   \<and> map attr_key (attributes example_result) = [''SLEEVE_TYPE'', ''NECK'']
   \<and> map attr_label (attributes example_result) = [''SLEEVE TYPE'', ''NECK'']"
proof -
  have "distinct (map attr_key (attributes example_result))"
    using attribute_keys_distinct [OF example_run] by (rule conjunct1)
  moreover have "map attr_key (attributes example_result) = [''SLEEVE_TYPE'', ''NECK'']"
    "map attr_label (attributes example_result) = [''SLEEVE TYPE'', ''NECK'']"
    by (simp_all add: example_attributes)
  ultimately show ?thesis using example_run by (intro conjI)
qed

text \<open>
  Claim C4: in the allowed values of every attribute of the output the short forms are
  pairwise distinct, and only the first occurrence of a short form is kept. With a
  companion column, the entry of a short form has the full form of the first pair of
  \<open>value_df\<close> with that short form, and every short form of \<open>value_df\<close> has an entry;
  without one, an entry has its short form as full form and comes from a value of the
  column, and every value of the column has an entry.
\<close>

theorem allowed_values_short_forms_distinct:
  "parse_excel df = Inr out \<Longrightarrow> a \<in> set (attributes out) \<Longrightarrow>
   distinct (map av_short_form (attr_allowed_values a))
   \<and> (attr_label a @ '' FULL NAME'' \<in> set (columns df) \<longrightarrow>
        (\<forall>v \<in> set (attr_allowed_values a). \<exists>s f.
            find (\<lambda>(s', f'). strip (py_str s') = av_short_form v)
              (value_df df (attr_label a) (attr_label a @ '' FULL NAME'')) = Some (s, f)
            \<and> av_full_form v = strip (py_str f))
        \<and> (\<forall>(s, f) \<in> set (value_df df (attr_label a) (attr_label a @ '' FULL NAME'')).
              strip (py_str s) \<in> set (map av_short_form (attr_allowed_values a))))
   \<and> (attr_label a @ '' FULL NAME'' \<notin> set (columns df) \<longrightarrow>
        (\<forall>v \<in> set (attr_allowed_values a).
            av_full_form v = av_short_form v
            \<and> (\<exists>x \<in> set (unique_values df (attr_label a)). av_short_form v = strip (py_str x)))
        \<and> (\<forall>x \<in> set (unique_values df (attr_label a)).
              strip (py_str x) \<in> set (map av_short_form (attr_allowed_values a))))"
proof -
  assume p: "parse_excel df = Inr out" and a: "a \<in> set (attributes out)"
  from p have eq: "attributes out = extract_attributes df" using parse_excel_Inr by blast
  from a have a': "a \<in> set (extract_attributes df)" unfolding eq .
  have m: "a = make_attribute df (attr_label a) (attr_key a)"
    using a' by (rule extract_attributes_make)
  have "attr_allowed_values a
      = attr_allowed_values (make_attribute df (attr_label a) (attr_key a))"
    by (rule arg_cong [OF m])
  also have "\<dots> = build_allowed_values df (attr_label a)"
    by (rule attr_sel_make)
  finally have av: "attr_allowed_values a = build_allowed_values df (attr_label a)" .
  define col where "col = attr_label a"
  define fn where "fn = col @ '' FULL NAME''"
  have 1: "distinct (map av_short_form (build_allowed_values df col))"
    by (rule build_allowed_values_distinct)
  have 2: "fn \<in> set (columns df) \<longrightarrow>
        (\<forall>v \<in> set (build_allowed_values df col). \<exists>s f.
            find (\<lambda>(s', f'). strip (py_str s') = av_short_form v) (value_df df col fn) = Some (s, f)
            \<and> av_full_form v = strip (py_str f))
        \<and> (\<forall>(s, f) \<in> set (value_df df col fn).
              strip (py_str s) \<in> set (map av_short_form (build_allowed_values df col)))"
  proof
    assume c: "fn \<in> set (columns df)"
    show "(\<forall>v \<in> set (build_allowed_values df col). \<exists>s f.
            find (\<lambda>(s', f'). strip (py_str s') = av_short_form v) (value_df df col fn) = Some (s, f)
            \<and> av_full_form v = strip (py_str f))
        \<and> (\<forall>(s, f) \<in> set (value_df df col fn).
              strip (py_str s) \<in> set (map av_short_form (build_allowed_values df col)))"
      unfolding build_allowed_values_companion [OF fn_def c]
      using value_df_loop_first value_df_loop_all_short_forms by blast
  qed
  have 3: "fn \<notin> set (columns df) \<longrightarrow>
        (\<forall>v \<in> set (build_allowed_values df col).
            av_full_form v = av_short_form v
            \<and> (\<exists>x \<in> set (unique_values df col). av_short_form v = strip (py_str x)))
        \<and> (\<forall>x \<in> set (unique_values df col).
              strip (py_str x) \<in> set (map av_short_form (build_allowed_values df col)))"
  proof
    assume c: "fn \<notin> set (columns df)"
    have every: "strip (py_str x)
        \<in> set (map av_short_form
                 (value_df_loop (map (\<lambda>x. (x, x)) (unique_values df col)) [] {}))"
      if "x \<in> set (unique_values df col)" for x
    proof -
      from that have "(x, x) \<in> set (map (\<lambda>x. (x, x)) (unique_values df col))"
        by (simp add: image_iff)
      then show ?thesis by (rule value_df_loop_all_short_forms)
    qed
    show "(\<forall>v \<in> set (build_allowed_values df col).
            av_full_form v = av_short_form v
            \<and> (\<exists>x \<in> set (unique_values df col). av_short_form v = strip (py_str x)))
        \<and> (\<forall>x \<in> set (unique_values df col).
              strip (py_str x) \<in> set (map av_short_form (build_allowed_values df col)))"
      unfolding build_allowed_values_alone [OF fn_def c]
      using value_df_loop_same every by blast
  qed
  from 1 2 3 show ?thesis
    unfolding av fn_def col_def by (intro conjI)
qed

theorem allowed_values_short_forms_distinct_witness:
  "parse_excel example_table = Inr example_result
   \<and> make_attribute example_table ''NECK'' ''NECK'' \<in> set (attributes example_result)
   \<and> distinct (map av_short_form (build_allowed_values example_table ''NECK''))
   \<and> map (\<lambda>v. (av_short_form v, av_full_form v)) (build_allowed_values example_table ''NECK'')
       = [(''RN'', ''Round Neck'')]
   \<and> parse_excel example_table2 = Inr example_result2
   \<and> make_attribute example_table2 ''NECK STYLE'' ''NECK_STYLE''
       \<in> set (attributes example_result2)
   \<and> unique_values example_table2 ''NECK STYLE''
       = [Some ''Round'', Some ''V-Shape'', Some ''Round '']
   \<and> distinct (map av_short_form (build_allowed_values example_table2 ''NECK STYLE''))
   \<and> map (\<lambda>v. (av_short_form v, av_full_form v))
         (build_allowed_values example_table2 ''NECK STYLE'')
       = [(''Round'', ''Round''), (''V-Shape'', ''V-Shape'')]"
proof -
  have mem: "make_attribute example_table ''NECK'' ''NECK'' \<in> set (attributes example_result)"
    by (simp add: example_attributes)
  have "distinct (map av_short_form
      (attr_allowed_values (make_attribute example_table ''NECK'' ''NECK'')))"
    using allowed_values_short_forms_distinct [OF example_run mem] by (rule conjunct1)
  then have d: "distinct (map av_short_form (build_allowed_values example_table ''NECK''))"
    by (simp only: attr_sel_make)
  have mem2: "make_attribute example_table2 ''NECK STYLE'' ''NECK_STYLE''
      \<in> set (attributes example_result2)"
    by (simp add: example2_attributes)
  have "distinct (map av_short_form
      (attr_allowed_values (make_attribute example_table2 ''NECK STYLE'' ''NECK_STYLE'')))"
    using allowed_values_short_forms_distinct [OF example2_run mem2] by (rule conjunct1)
  then have d2: "distinct (map av_short_form (build_allowed_values example_table2 ''NECK STYLE''))"
    by (simp only: attr_sel_make)
  show ?thesis
    using example_run mem d example_neck_values
      example2_run mem2 example2_unique_values d2 example2_neck_style_values
    by (intro conjI)
qed

text \<open>
  Claim C10: the label and the full form of every attribute of the output are the raw
  header of the attribute column the attribute was derived from, so they are equal; the
  key of the attribute is the normalized key of that header.
\<close>

theorem attribute_label_full_form:
  "parse_excel df = Inr out \<Longrightarrow> a \<in> set (attributes out) \<Longrightarrow>
   attr_label a = attr_full_form a
   \<and> attr_label a \<in> set (attr_cols df)
   \<and> normalize_key (Some (attr_label a)) = Some (attr_key a)"
proof -
  assume p: "parse_excel df = Inr out" and a: "a \<in> set (attributes out)"
  from p have eq: "attributes out = extract_attributes df" using parse_excel_Inr by blast
  from a have a': "a \<in> set (extract_attributes df)" unfolding eq .
  have m: "a = make_attribute df (attr_label a) (attr_key a)"
    using a' by (rule extract_attributes_make)
  have f: "find (\<lambda>col. normalize_key (Some col) = Some (attr_key a)) (attr_cols df)
      = Some (attr_label a)"
    using a' by (rule extract_attributes_first)
  have "attr_full_form a = attr_full_form (make_attribute df (attr_label a) (attr_key a))"
    by (rule arg_cong [OF m])
  also have "\<dots> = attr_label a"
    by (rule attr_sel_make)
  finally have 1: "attr_label a = attr_full_form a" by (rule sym)
  from f have 2: "attr_label a \<in> set (attr_cols df)
      \<and> normalize_key (Some (attr_label a)) = Some (attr_key a)"
    unfolding find_Some_iff by (metis nth_mem)
  from 1 2 show ?thesis by blast
qed

theorem attribute_label_full_form_witness:
  "parse_excel example_table = Inr example_result
   \<and> make_attribute example_table ''SLEEVE TYPE'' ''SLEEVE_TYPE'' \<in> set (attributes example_result)
   \<and> attr_label (make_attribute example_table ''SLEEVE TYPE'' ''SLEEVE_TYPE'') = ''SLEEVE TYPE''
   \<and> attr_full_form (make_attribute example_table ''SLEEVE TYPE'' ''SLEEVE_TYPE'') = ''SLEEVE TYPE''"
proof -
  let ?a = "make_attribute example_table ''SLEEVE TYPE'' ''SLEEVE_TYPE''"
  have mem: "?a \<in> set (attributes example_result)"
    by (simp add: example_attributes)
  have "attr_label ?a = attr_full_form ?a"
    using attribute_label_full_form [OF example_run mem] by (rule conjunct1)
  moreover have "attr_label ?a = ''SLEEVE TYPE''" by (rule attr_sel_make)
  ultimately have "attr_full_form ?a = ''SLEEVE TYPE''" by simp
  then show ?thesis using example_run mem \<open>attr_label ?a = ''SLEEVE TYPE''\<close> by (intro conjI)
qed

subsection \<open>Category-attribute mappings\<close>

text \<open>
  Claim C6, as stated: for a category value \<open>c\<close> and an attribute column \<open>col\<close>, the
  output has the edge of \<open>c\<close> stripped and the normalized key of \<open>col\<close> if and only if a
  row of category \<open>c\<close> has a value in \<open>col\<close>. In the example table no row has a
  value in the column \<open>SLEEVE TYPE\<close>, and the output has the edge of \<open>KNIT-TOP\<close> and
  \<open>SLEEVE_TYPE\<close> all the same: it comes from the column \<open>SLEEVE-TYPE\<close>, which has the
  same normalized key.
\<close>

theorem mapping_edges_counterexample:
  "parse_excel example_table = Inr example_result
   \<and> \<lparr>cm_major_category = ''KNIT-TOP'', cm_attribute = ''SLEEVE_TYPE''\<rparr>
       \<in> set (category_mappings example_result)
   \<and> ''SLEEVE TYPE'' \<in> set (attr_cols example_table)
   \<and> normalize_key (Some ''SLEEVE TYPE'') = Some ''SLEEVE_TYPE''
   \<and> strip ''KNIT-TOP'' = ''KNIT-TOP''
   \<and> rows example_table = [example_row1, example_row2, example_row3]
   \<and> example_row1 ''MAJOR CATEGORY'' = Some ''KNIT-TOP'' \<and> example_row1 ''SLEEVE TYPE'' = None
   \<and> example_row2 ''MAJOR CATEGORY'' = Some ''KNIT-TOP'' \<and> example_row2 ''SLEEVE TYPE'' = None
   \<and> example_row3 ''MAJOR CATEGORY'' = Some ''KNIT-TOP'' \<and> example_row3 ''SLEEVE TYPE'' = None"
proof -
  have "''SLEEVE TYPE'' \<in> set (attr_cols example_table)" by (simp add: example_attr_cols)
  then show ?thesis
    using example_run example_edge_sleeve example_keys(1) strip_KNIT_TOP example_rows
      example_cells(1-6)
    by (intro conjI)
qed

text \<open>
  Claim C6, amended: the output has the edge of major category \<open>m\<close> and attribute \<open>k\<close>
  if and only if some row has a major-category value \<open>c\<close> with \<open>m\<close> the stripped \<open>c\<close>
  and a value in some attribute column whose normalized key is \<open>k\<close>, \<open>k\<close> not empty. So
  a row of category \<open>c\<close> with a value in \<open>col\<close> gives the edge of \<open>c\<close> and \<open>col\<close>, and an
  edge may also come from another column with the same key or another category value
  with the same stripped form.
\<close>

theorem mapping_edges_iff:
  "parse_excel df = Inr out \<Longrightarrow>
   (\<lparr>cm_major_category = m, cm_attribute = k\<rparr> \<in> set (category_mappings out)) \<longleftrightarrow>
   (\<exists>r \<in> set (rows df). \<exists>c. r ''MAJOR CATEGORY'' = Some c \<and> m = strip c
       \<and> (\<exists>col \<in> set (attr_cols df). r col \<noteq> None
             \<and> normalize_key (Some col) = Some k \<and> k \<noteq> []))"
proof -
  assume p: "parse_excel df = Inr out"
  then have eq: "category_mappings out = build_category_mappings df"
    using parse_excel_Inr by simp
  show ?thesis
    using set_build_category_mappings [of "\<lparr>cm_major_category = m, cm_attribute = k\<rparr>" df]
    by (simp add: eq)
qed

theorem mapping_edges_iff_witness:
  "parse_excel example_table = Inr example_result
   \<and> example_row1 \<in> set (rows example_table)
   \<and> example_row1 ''MAJOR CATEGORY'' = Some ''KNIT-TOP''
   \<and> ''NECK'' \<in> set (attr_cols example_table)
   \<and> example_row1 ''NECK'' = Some ''RN''
   \<and> normalize_key (Some ''NECK'') = Some ''NECK''
   \<and> \<lparr>cm_major_category = ''KNIT-TOP'', cm_attribute = ''NECK''\<rparr>
       \<in> set (category_mappings example_result)"
proof -
  have r: "example_row1 \<in> set (rows example_table)" by (simp add: example_rows)
  have col: "''NECK'' \<in> set (attr_cols example_table)" by (simp add: example_attr_cols)
  have "\<lparr>cm_major_category = ''KNIT-TOP'', cm_attribute = ''NECK''\<rparr>
       \<in> set (category_mappings example_result)"
  proof (rule iffD2 [OF mapping_edges_iff [OF example_run]],
      intro bexI [OF _ r] exI [of _ "''KNIT-TOP''"] conjI bexI [OF _ col])
    show "example_row1 ''MAJOR CATEGORY'' = Some ''KNIT-TOP''" by (rule example_cells)
    show "''KNIT-TOP'' = strip ''KNIT-TOP''" by (simp add: strip_KNIT_TOP)
    show "example_row1 ''NECK'' \<noteq> None" by (simp add: example_cells)
    show "normalize_key (Some ''NECK'') = Some ''NECK''" by (rule example_keys)
    show "''NECK'' \<noteq> []" by simp
  qed
  then show ?thesis
    using example_run r col example_cells(1) example_cells(8) example_keys(3)
    by (intro conjI)
qed

text \<open>
  Claim C9: the attribute of every edge of the category mappings is the key of some
  attribute of the output.
\<close>

theorem mapping_attribute_in_catalog:
  "parse_excel df = Inr out \<Longrightarrow> e \<in> set (category_mappings out) \<Longrightarrow>
   \<exists>a \<in> set (attributes out). attr_key a = cm_attribute e"
proof -
  assume p: "parse_excel df = Inr out" and e: "e \<in> set (category_mappings out)"
  from p have eq: "attributes out = extract_attributes df"
    "category_mappings out = build_category_mappings df" using parse_excel_Inr by blast+
  from e have "e \<in> set (build_category_mappings df)" unfolding eq .
  then obtain col where "col \<in> set (attr_cols df)"
    "normalize_key (Some col) = Some (cm_attribute e)" "cm_attribute e \<noteq> []"
    unfolding set_build_category_mappings by blast
  then show ?thesis unfolding eq by (rule extract_attributes_complete)
qed

theorem mapping_attribute_in_catalog_witness:
  "parse_excel example_table = Inr example_result
   \<and> \<lparr>cm_major_category = ''KNIT-TOP'', cm_attribute = ''SLEEVE_TYPE''\<rparr>
       \<in> set (category_mappings example_result)
   \<and> ''SLEEVE_TYPE'' \<in> set (map attr_key (attributes example_result))"
proof -
  from mapping_attribute_in_catalog [OF example_run example_edge_sleeve]
  obtain a where "a \<in> set (attributes example_result)" "attr_key a = ''SLEEVE_TYPE''"
    by auto
  then have "''SLEEVE_TYPE'' \<in> set (map attr_key (attributes example_result))"
    by (metis image_eqI set_map)
  then show ?thesis using example_run example_edge_sleeve by (intro conjI)
qed

end
